theory Spec2Isabelle
  imports Main "HOL-Library.Sublist"
begin

section \<open>Data model\<close>

text \<open>
  Modelled from the spec: the Django models \<open>Repository\<close>, \<open>Diff\<close>, \<open>Issue\<close> and
  \<open>IssueLink\<close> (\<open>issues/models.py\<close>) are not among the sources; the rows below carry the
  attributes that \<open>load_in_patch.py\<close> and \<open>api.py\<close> read and write. Python integers are
  \<open>int\<close>, a nullable column is an \<open>option\<close>, a table is the list of its rows.
  \<open>Diff.id\<close> and \<open>IssueLink.id\<close> are written \<open>id_diff\<close> and \<open>id_link\<close>.
\<close>

record repository =
  url :: string

record diff =
  id_diff :: int
  repository :: repository
  mercurial_hash :: string
  revision_id :: int

text \<open>
  An issue has a path, an optional first line and a number of lines (an integer, as the
  spec has it). \<open>api.py\<close> filters
  issues on their own \<open>in_patch\<close> and \<open>level\<close> columns, and on the analyzer, the check,
  the creation date and the head repositories of the revisions they are linked to.
\<close>

record issue =
  id_issue :: int
  path :: string
  line :: "int option"
  nb_lines :: int
  level :: string
  analyzer :: string
  analyzer_check :: string
  created :: int
  head_repository_slugs :: "string list"
  in_patch :: "bool option"

text \<open>
  An issue link joins one issue to an optional diff; \<open>issue_link.in_patch\<close> is the
  tri-state column the command fills: \<open>None\<close> is unknown.
\<close>

record issue_link =
  id_link :: int
  issue :: issue
  diff_id :: "int option"
  link_revision_id :: int
  in_patch :: "bool option"

section \<open>Errors, the remote service and the log\<close>

text \<open>Every exception the command can meet is a value.\<close>

datatype error =
    RequestException string
  | HTTPError nat
  | JSONDecodeError
  | IndexError
  | PatchError string
  | AssertionError string
  | DatabaseError string

text \<open>
  The body of \<open>json-rev\<close> is typed as the interface of the remote service gives it: a
  description and the ordered list of parents; a body without one of the two keys, or with
  values of another type, is outside this type. \<open>json\<close> is what \<open>resp.json()\<close> returns or
  raises.
\<close>

record meta =
  desc :: string
  parents :: "string list"

record response =
  status_code :: nat
  text_resp :: string
  json :: "error + meta"

text \<open>
  One file of \<open>Patch.parse_patch\<close>'s result: a dictionary whose keys \<open>touched\<close> and
  \<open>added\<close> may be absent.
\<close>

record file_changes =
  touched :: "int list option"
  added :: "int list option"

type_synonym headers = "(string \<times> string) list"

text \<open>
  What the command does not own is a parameter: the HTTP service, the patch parser of the
  \<open>parsepatch\<close> library (its dictionary is the list of its items), the setting
  \<open>BACKEND_USER_AGENT\<close>, and whether the database accepts a batched write.
\<close>

record env =
  http_get :: "string \<Rightarrow> headers \<Rightarrow> error + response"
  parse_patch :: "string \<Rightarrow> error + (string \<times> file_changes) list"
  BACKEND_USER_AGENT :: string
  bulk_update_error :: "issue_link list \<Rightarrow> error option"

datatype log_entry =
    Downloading string
  | Found_in_patch nat int
  | Failure_on_diff int error
  | Will_process nat

text \<open>
  The state the command runs in: the two tables, the log records written so far and the
  HTTP requests sent so far.
\<close>

record world =
  diffs :: "diff list"
  issue_links :: "issue_link list"
  log :: "log_entry list"
  requests :: "(string \<times> headers) list"

text \<open>
  \<open>logging.basicConfig(level=logging.INFO)\<close> sets the level of the root logger, which the
  module's own logger inherits: \<open>logging.info\<close> makes a record, \<open>logger.debug\<close> is below the
  level and makes none.
\<close>

definition logging_info :: "log_entry \<Rightarrow> world \<Rightarrow> world" where
  "logging_info m w = w\<lparr>log := log w @ [m]\<rparr>"

definition logger_debug :: "log_entry \<Rightarrow> world \<Rightarrow> world" where
  "logger_debug m w = w"

definition requests_get :: "env \<Rightarrow> string \<Rightarrow> world \<Rightarrow> (error + response) \<times> world" where
  "requests_get e u w =
     (let h = [(''user-agent'', BACKEND_USER_AGENT e)]
      in (http_get e u h, w\<lparr>requests := requests w @ [(u, h)]\<rparr>))"

definition raise_for_status :: "response \<Rightarrow> error + unit" where
  "raise_for_status resp =
     (if 400 \<le> status_code resp \<and> status_code resp < 600
      then Inl (HTTPError (status_code resp)) else Inr ())"

section \<open>load\_hgmo\_patch\<close>

text \<open>\<open>d.get(key, [])\<close> on one file of the parsed patch.\<close>

definition get_default :: "int list option \<Rightarrow> int list" where
  "get_default v = (case v of None \<Rightarrow> [] | Some xs \<Rightarrow> xs)"

text \<open>
  The revision whose patch is downloaded: the first parent for a \<open>try_task_config\<close>
  commit (\<open>IndexError\<close> when there is none), the diff's own hash otherwise.
\<close>

definition patch_rev :: "meta \<Rightarrow> diff \<Rightarrow> error + string" where
  "patch_rev m d =
     (if prefix ''try_task_config'' (desc m)
      then (case parents m of [] \<Rightarrow> Inl IndexError | p # _ \<Rightarrow> Inr p)
      else Inr (mercurial_hash d))"

text \<open>
  The second half of the function, from \<open># Load the parent patch\<close> on: download, parse,
  reject the empty patch, and build the dictionary from file name to changed lines.
\<close>

definition load_parent_patch ::
  "env \<Rightarrow> diff \<Rightarrow> string \<Rightarrow> world \<Rightarrow> (error + (string \<rightharpoonup> int list)) \<times> world" where
  "load_parent_patch e d rv w =
     (let u = url (repository d) @ ''/raw-rev/'' @ rv;
          w1 = logging_info (Downloading u) w;
          (r, w2) = requests_get e u w1
      in case r of
           Inl x \<Rightarrow> (Inl x, w2)
         | Inr resp \<Rightarrow>
             (case raise_for_status resp of
                Inl x \<Rightarrow> (Inl x, w2)
              | Inr _ \<Rightarrow>
                  (case parse_patch e (text_resp resp) of
                     Inl x \<Rightarrow> (Inl x, w2)
                   | Inr patch \<Rightarrow>
                       if patch = [] then (Inl (AssertionError ''Empty patch''), w2)
                       else (Inr (map_of (map (\<lambda>(filename, fc).
                                     (filename, get_default (touched fc) @ get_default (added fc)))
                                   patch)), w2))))"

definition load_hgmo_patch ::
  "env \<Rightarrow> diff \<Rightarrow> world \<Rightarrow> (error + (string \<rightharpoonup> int list)) \<times> world" where
  "load_hgmo_patch e d w =
     (let u = url (repository d) @ ''/json-rev/'' @ mercurial_hash d;
          w1 = logging_info (Downloading u) w;
          (r, w2) = requests_get e u w1
      in case r of
           Inl x \<Rightarrow> (Inl x, w2)
         | Inr resp \<Rightarrow>
             (case raise_for_status resp of
                Inl x \<Rightarrow> (Inl x, w2)
              | Inr _ \<Rightarrow>
                  (case json resp of
                     Inl x \<Rightarrow> (Inl x, w2)
                   | Inr m \<Rightarrow>
                       (case patch_rev m d of
                          Inl x \<Rightarrow> (Inl x, w2)
                        | Inr rv \<Rightarrow> load_parent_patch e d rv w2))))"

section \<open>detect\_in\_patch\<close>

text \<open>Python's \<open>range(a, b)\<close> on integers.\<close>

definition range_py :: "int \<Rightarrow> int \<Rightarrow> int list" where
  "range_py a b = [a..b - 1]"

text \<open>
  The function assigns \<open>issue_link.in_patch\<close> on the object it was given and returns that
  object: the model returns the updated row.
\<close>

definition detect_in_patch :: "issue_link \<Rightarrow> (string \<rightharpoonup> int list) \<Rightarrow> issue_link" where
  "detect_in_patch l lines =
     (case lines (path (issue l)) of
        None \<Rightarrow> l\<lparr>in_patch := Some False\<rparr>
      | Some modified_lines \<Rightarrow>
          (case line (issue l) of
             None \<Rightarrow> l\<lparr>in_patch := Some True\<rparr>
           | Some n \<Rightarrow>
               l\<lparr>in_patch :=
                   Some (\<not> (set (range_py n (n + nb_lines (issue l))) \<inter> set modified_lines = {}))\<rparr>))"

section \<open>detect\_in\_patch on objects\<close>

text \<open>
  The link and the dictionary the function is given are objects, and the function delivers
  its boolean by an assignment on the link. With the objects in a store, \<open>issue_link\<close> and
  \<open>lines\<close> are references; \<open>issue_link.in_patch = b\<close> writes the object at the reference, and
  \<open>return issue_link\<close> returns the reference it was given.
\<close>

record store =
  link_objects :: "nat \<Rightarrow> issue_link"
  dict_objects :: "nat \<Rightarrow> (string \<rightharpoonup> int list)"

definition assign_in_patch :: "nat \<Rightarrow> bool \<Rightarrow> store \<Rightarrow> store" where
  "assign_in_patch r b s =
     s\<lparr>link_objects := (link_objects s)(r := (link_objects s r)\<lparr>in_patch := Some b\<rparr>)\<rparr>"

definition detect_in_patch_obj :: "nat \<Rightarrow> nat \<Rightarrow> store \<Rightarrow> nat \<times> store" where
  "detect_in_patch_obj issue_link lines s =
     (case dict_objects s lines (path (issue (link_objects s issue_link))) of
        None \<Rightarrow> (issue_link, assign_in_patch issue_link False s)
      | Some modified_lines \<Rightarrow>
          (case line (issue (link_objects s issue_link)) of
             None \<Rightarrow> (issue_link, assign_in_patch issue_link True s)
           | Some n \<Rightarrow>
               (issue_link,
                assign_in_patch issue_link
                  (\<not> (set (range_py n (n + nb_lines (issue (link_objects s issue_link)))) \<inter>
                        set modified_lines = {}))
                  s)))"

section \<open>process\_diff\<close>

text \<open>\<open>diff.issue_links.all()\<close>: the rows of the link table that point to the diff.\<close>

definition issue_links_all :: "diff \<Rightarrow> world \<Rightarrow> issue_link list" where
  "issue_links_all d w = filter (\<lambda>l. diff_id l = Some (id_diff d)) (issue_links w)"

text \<open>
  \<open>IssueLink.objects.bulk_update(issue_links, ["in_patch"])\<close>: every row whose primary key
  is the key of one of the objects takes that object's \<open>in_patch\<close>; no other column is
  named in the call. The write is one transaction: when the database refuses it, no row
  has changed.
\<close>

definition update_row :: "issue_link list \<Rightarrow> issue_link \<Rightarrow> issue_link" where
  "update_row objs row =
     (case find (\<lambda>obj. id_link obj = id_link row) objs of
        None \<Rightarrow> row
      | Some obj \<Rightarrow> row\<lparr>in_patch := in_patch obj\<rparr>)"

definition bulk_update :: "env \<Rightarrow> issue_link list \<Rightarrow> world \<Rightarrow> (error + unit) \<times> world" where
  "bulk_update e objs w =
     (case bulk_update_error e objs of
        Some x \<Rightarrow> (Inl x, w)
      | None \<Rightarrow> (Inr (), w\<lparr>issue_links := map (update_row objs) (issue_links w)\<rparr>))"

text \<open>The body of the \<open>try\<close> block: an exception leaves it as \<open>Inl\<close>.\<close>

definition process_diff_try :: "env \<Rightarrow> diff \<Rightarrow> world \<Rightarrow> (error + unit) \<times> world" where
  "process_diff_try e d w =
     (case load_hgmo_patch e d w of
        (Inl x, w1) \<Rightarrow> (Inl x, w1)
      | (Inr lines, w1) \<Rightarrow>
          (let links = map (\<lambda>issue_link. detect_in_patch issue_link lines) (issue_links_all d w1);
               w2 = logging_info
                      (Found_in_patch (length (filter (\<lambda>i. in_patch i = Some True) links)) (id_diff d))
                      w1
           in bulk_update e links w2))"

text \<open>\<open>except Exception as e\<close>: the failure is logged with the diff's id and swallowed.\<close>

definition process_diff :: "env \<Rightarrow> diff \<Rightarrow> world \<Rightarrow> world" where
  "process_diff e d w =
     (case process_diff_try e d w of
        (Inl x, w1) \<Rightarrow> logging_info (Failure_on_diff (id_diff d) x) w1
      | (Inr _, w1) \<Rightarrow> w1)"

section \<open>Command.handle\<close>

text \<open>
  \<open>Diff.objects.filter(issue_links__in_patch__isnull=True).order_by("id").distinct()\<close>:
  an \<open>isnull=True\<close> lookup across the reverse relation joins the links to the diffs by a
  left outer join. A diff without any link yields one row whose link columns are null, and
  the row passes \<open>in_patch IS NULL\<close>; a diff with links yields one row per link, of which
  those of unknown \<open>in_patch\<close> pass. The copies are removed and the rows ordered by id.
\<close>

definition select_diffs :: "world \<Rightarrow> diff list" where
  "select_diffs w =
     sort_key id_diff
       (remdups
         (concat (map (\<lambda>d. let joined = filter (\<lambda>l. diff_id l = Some (id_diff d)) (issue_links w)
                            in if joined = [] then [d]
                               else map (\<lambda>_. d) (filter (\<lambda>l. in_patch l = None) joined))
                      (diffs w))))"

text \<open>
  \<open>pool.map(process_diff, diffs, chunksize=20)\<close>, as the default single worker runs it:
  one diff after the other, in the order of the selection. Workers of a larger pool write
  to the rows of different diffs. The selection is read once, before the first diff is
  processed; closing the database connections changes no row.
\<close>

fun pool_map :: "env \<Rightarrow> diff list \<Rightarrow> world \<Rightarrow> world" where
  "pool_map e [] w = w"
| "pool_map e (d # ds) w = pool_map e ds (process_diff e d w)"

definition handle :: "env \<Rightarrow> world \<Rightarrow> world" where
  "handle e w =
     (let ds = select_diffs w;
          w1 = logger_debug (Will_process (length ds)) w
      in pool_map e ds w1)"

text \<open>
  A run in which no diff fails: every \<open>try\<close> body of the selection returns, each in the
  state its predecessors left.
\<close>

fun all_classified :: "env \<Rightarrow> diff list \<Rightarrow> world \<Rightarrow> bool" where
  "all_classified e [] w = True"
| "all_classified e (d # ds) w =
     (\<not> isl (fst (process_diff_try e d w)) \<and> all_classified e ds (process_diff e d w))"

text \<open>The diffs a log reports on: one id per \<open>Found\<close> or \<open>Failure\<close> record.\<close>

fun reported :: "log_entry list \<Rightarrow> int list" where
  "reported [] = []"
| "reported (Found_in_patch n i # es) = i # reported es"
| "reported (Failure_on_diff i x # es) = i # reported es"
| "reported (_ # es) = reported es"

section \<open>The row relation of the proofs\<close>

text \<open>
  \<open>written_by k r r'\<close>: row \<open>r'\<close> is row \<open>r\<close> up to \<open>in_patch\<close>, and is \<open>r\<close> itself unless
  \<open>r\<close> belongs to diff \<open>k\<close>.
\<close>

definition written_by :: "int \<Rightarrow> issue_link \<Rightarrow> issue_link \<Rightarrow> bool" where
  "written_by k r r' =
     (r' = r\<lparr>in_patch := in_patch r'\<rparr> \<and> (diff_id r \<noteq> Some k \<longrightarrow> r' = r))"

section \<open>api.py: publishable issues\<close>

text \<open>
  \<open>str.lower()\<close>, on the ASCII letters the query parameter is compared with.
\<close>

datatype api_error = APIException string

definition lower_char :: "char \<Rightarrow> char" where
  "lower_char c =
     (case map_of (zip ''ABCDEFGHIJKLMNOPQRSTUVWXYZ'' ''abcdefghijklmnopqrstuvwxyz'') c of
        None \<Rightarrow> c
      | Some l \<Rightarrow> l)"

definition lower :: "string \<Rightarrow> string" where
  "lower s = map lower_char s"

text \<open>
  The annotations of \<open>DiffViewSet.get_queryset\<close> on one diff, from the issues joined to it.
  \<open>LEVEL_ERROR\<close> is a constant of the absent \<open>models.py\<close> and a parameter here.
\<close>

record diff_counts =
  nb_issues :: nat
  nb_errors :: nat
  nb_warnings :: nat
  nb_issues_publishable :: nat

definition annotate_diff :: "string \<Rightarrow> issue list \<Rightarrow> diff_counts" where
  "annotate_diff LEVEL_ERROR issues =
     \<lparr>nb_issues = length issues,
      nb_errors = length (filter (\<lambda>i. level i = ''error'') issues),
      nb_warnings = length (filter (\<lambda>i. level i = ''warning'') issues),
      nb_issues_publishable =
        length (filter (\<lambda>i. issue.in_patch i = Some True \<or> level i = LEVEL_ERROR) issues)\<rparr>"

text \<open>
  \<open>IssueCheckDetails.get_queryset\<close>: the join on the head repositories yields one copy of an
  issue per matching revision; \<open>distinct()\<close> removes the copies. \<open>strptime\<close> is the date parser,
  \<open>None\<close> where it raises \<open>ValueError\<close>; a date is a number of days.
\<close>

definition issue_check_details ::
  "string \<Rightarrow> (string \<Rightarrow> int option) \<Rightarrow> issue list \<Rightarrow> string \<Rightarrow> string \<Rightarrow> string \<Rightarrow>
   string option \<Rightarrow> string option \<Rightarrow> api_error + issue list" where
  "issue_check_details LEVEL_ERROR strptime issues repo an chk publishable_param since_param =
     (let queryset =
            sort_key (\<lambda>i. - created i)
              (filter (\<lambda>i. analyzer_check i = chk)
                (filter (\<lambda>i. analyzer i = an)
                  (concat (map (\<lambda>i. map (\<lambda>_. i) (filter (\<lambda>slug. slug = repo) (head_repository_slugs i)))
                               issues))));
          publishable = lower (case publishable_param of None \<Rightarrow> ''true'' | Some p \<Rightarrow> p);
          filter_q = (\<lambda>i. issue.in_patch i = Some True \<or> level i = LEVEL_ERROR)
      in if publishable \<noteq> ''true'' \<and> publishable \<noteq> ''false'' \<and> publishable \<noteq> ''all''
         then Inl (APIException ''publishable can only be true, false or all'')
         else
           (let queryset1 =
                  (if publishable = ''true'' then filter filter_q queryset
                   else if publishable = ''false'' then filter (\<lambda>i. \<not> filter_q i) queryset
                   else queryset)
            in case since_param of
                 None \<Rightarrow> Inr (remdups queryset1)
               | Some s \<Rightarrow>
                   (case strptime s of
                      None \<Rightarrow> Inl (APIException ''invalid since date - should be YYYY-MM-DD'')
                    | Some since \<Rightarrow> Inr (remdups (filter (\<lambda>i. since \<le> created i) queryset1)))))"

text \<open>
  The spec's words: an issue is publishable when it is in the patch or of level error.
\<close>

definition publishable_spec :: "string \<Rightarrow> issue \<Rightarrow> bool" where
  "publishable_spec LEVEL_ERROR i = (issue.in_patch i = Some True \<or> level i = LEVEL_ERROR)"

section \<open>Example data\<close>

text \<open>
  A remote service with a \<open>try_task_config\<close> commit \<open>C1\<close> (parents \<open>P1\<close>, \<open>P2\<close>), an ordinary
  commit \<open>C2\<close>, a commit \<open>C4\<close> whose patch is empty, and nothing else; a database whose diff 2
  cannot be fetched, whose diff 4 has an empty patch and whose diff 5 is classified; a
  database whose diffs can all be fetched, and the same with a diff 6 that has no link; a
  store of two link objects and one dictionary.
\<close>

definition example_http :: "string \<Rightarrow> headers \<Rightarrow> error + response" where
  "example_http u h =
     (if u = ''https://hg.example/try/json-rev/C1''
      then Inr \<lparr>status_code = 200, text_resp = '''',
                json = Inr \<lparr>desc = ''try_task_config for bug X'', parents = [''P1'', ''P2'']\<rparr>\<rparr>
      else if u = ''https://hg.example/try/raw-rev/P1''
      then Inr \<lparr>status_code = 200, text_resp = ''patch P1'', json = Inl JSONDecodeError\<rparr>
      else if u = ''https://hg.example/try/json-rev/C2''
      then Inr \<lparr>status_code = 200, text_resp = '''',
                json = Inr \<lparr>desc = ''Bug 2 - fix b.c'', parents = [''P0'']\<rparr>\<rparr>
      else if u = ''https://hg.example/try/raw-rev/C2''
      then Inr \<lparr>status_code = 200, text_resp = ''patch C2'', json = Inl JSONDecodeError\<rparr>
      else if u = ''https://hg.example/try/json-rev/C4''
      then Inr \<lparr>status_code = 200, text_resp = '''',
                json = Inr \<lparr>desc = ''Bug 4 - nothing'', parents = [''P0'']\<rparr>\<rparr>
      else if u = ''https://hg.example/try/raw-rev/C4''
      then Inr \<lparr>status_code = 200, text_resp = '''', json = Inl JSONDecodeError\<rparr>
      else Inr \<lparr>status_code = 404, text_resp = ''not found'', json = Inl JSONDecodeError\<rparr>)"

definition example_parse :: "string \<Rightarrow> error + (string \<times> file_changes) list" where
  "example_parse t =
     (if t = ''patch P1'' then Inr [(''a.c'', \<lparr>touched = Some [10, 11], added = Some [12, 20]\<rparr>)]
      else if t = ''patch C2'' then Inr [(''b.c'', \<lparr>touched = None, added = Some [1, 2, 3]\<rparr>)]
      else if t = '''' then Inr []
      else Inl (PatchError ''not a patch''))"

definition example_env :: env where
  "example_env =
     \<lparr>http_get = example_http, parse_patch = example_parse,
      BACKEND_USER_AGENT = ''code-review-backend'', bulk_update_error = (\<lambda>_. None)\<rparr>"

definition example_diff :: "int \<Rightarrow> string \<Rightarrow> diff" where
  "example_diff i h =
     \<lparr>id_diff = i, repository = \<lparr>url = ''https://hg.example/try''\<rparr>, mercurial_hash = h,
      revision_id = 1\<rparr>"

definition example_link ::
  "int \<Rightarrow> string \<Rightarrow> int option \<Rightarrow> int \<Rightarrow> int option \<Rightarrow> bool option \<Rightarrow> issue_link" where
  "example_link k p ln n d known =
     \<lparr>id_link = k,
      issue = \<lparr>id_issue = k, path = p, line = ln, nb_lines = n, level = ''warning'',
               analyzer = ''clang-tidy'', analyzer_check = ''modernize'', created = 0,
               head_repository_slugs = [''try''], in_patch = None\<rparr>,
      diff_id = d, link_revision_id = 1, in_patch = known\<rparr>"

definition example_world :: world where
  "example_world =
     \<lparr>diffs = [example_diff 3 ''C2'', example_diff 1 ''C1'', example_diff 2 ''C3'',
               example_diff 4 ''C4'', example_diff 5 ''C2''],
      issue_links =
        [example_link 1 ''a.c'' (Some 8) 3 (Some 1) None,
         example_link 2 ''z.c'' None 1 (Some 1) (Some True),
         example_link 3 ''a.c'' None 1 (Some 2) None,
         example_link 4 ''b.c'' (Some 2) 1 (Some 3) None,
         example_link 5 ''b.c'' (Some 9) 1 (Some 5) (Some True),
         example_link 6 ''a.c'' (Some 1) 1 None None,
         example_link 7 ''a.c'' (Some 1) 1 (Some 4) None,
         example_link 8 ''b.c'' (Some 1) 1 (Some 3) None],
      log = [], requests = []\<rparr>"

definition example_backlog :: world where
  "example_backlog =
     \<lparr>diffs = [example_diff 3 ''C2'', example_diff 1 ''C1'', example_diff 5 ''C2''],
      issue_links =
        [example_link 1 ''a.c'' (Some 8) 3 (Some 1) None,
         example_link 2 ''z.c'' None 1 (Some 1) None,
         example_link 4 ''b.c'' (Some 2) 1 (Some 3) None,
         example_link 5 ''b.c'' (Some 9) 1 (Some 5) (Some True),
         example_link 6 ''a.c'' (Some 1) 1 None None],
      log = [], requests = []\<rparr>"

definition example_linkless :: world where
  "example_linkless = example_backlog\<lparr>diffs := diffs example_backlog @ [example_diff 6 ''C2'']\<rparr>"

definition example_store :: store where
  "example_store =
     \<lparr>link_objects =
        (\<lambda>r. if r = 0 then example_link 1 ''a.c'' (Some 8) 3 (Some 1) None
             else example_link 9 ''a.c'' (Some 8) 3 (Some 7) (Some False)),
      dict_objects = (\<lambda>_. [''a.c'' \<mapsto> [10, 11, 12, 20]])\<rparr>"

definition example_issues :: "issue list" where
  "example_issues =
     [(issue (example_link 1 ''a.c'' (Some 8) 3 (Some 1) None))\<lparr>issue.in_patch := Some True\<rparr>,
      (issue (example_link 2 ''z.c'' None 1 (Some 1) None))\<lparr>level := ''error''\<rparr>,
      (issue (example_link 3 ''a.c'' None 1 (Some 2) None))\<lparr>issue.in_patch := Some False\<rparr>,
      issue (example_link 4 ''b.c'' (Some 2) 1 (Some 3) None)]"

lemmas ex_defs = example_world_def example_link_def example_diff_def example_env_def
  example_parse_def example_http_def

lemmas run_defs = handle_def select_diffs_def process_diff_def process_diff_try_def
  bulk_update_def update_row_def issue_links_all_def detect_in_patch_def range_py_def
  load_hgmo_patch_def load_parent_patch_def patch_rev_def get_default_def raise_for_status_def
  requests_get_def logging_info_def logger_debug_def Let_def

section \<open>Helper lemmas\<close>

subsection \<open>The fetcher\<close>

lemma set_range_py: "set (range_py a b) = {a..<b}"
  by (auto simp: range_py_def)

lemma load_parent_patch_requests:
  "requests (snd (load_parent_patch e d rv w)) =
     requests w @ [(url (repository d) @ ''/raw-rev/'' @ rv, [(''user-agent'', BACKEND_USER_AGENT e)])]"
  by (simp add: load_parent_patch_def requests_get_def logging_info_def logger_debug_def Let_def
        split: sum.splits prod.splits)

lemma load_parent_patch_tables:
  "issue_links (snd (load_parent_patch e d rv w)) = issue_links w"
  "diffs (snd (load_parent_patch e d rv w)) = diffs w"
  by (simp_all add: load_parent_patch_def requests_get_def logging_info_def logger_debug_def Let_def
        split: sum.splits prod.splits)

lemma load_hgmo_patch_tables:
  "issue_links (snd (load_hgmo_patch e d w)) = issue_links w"
  "diffs (snd (load_hgmo_patch e d w)) = diffs w"
  by (simp_all add: load_hgmo_patch_def requests_get_def logging_info_def logger_debug_def Let_def
        load_parent_patch_tables split: sum.splits prod.splits)

lemma reported_append: "reported (xs @ ys) = reported xs @ reported ys"
  by (induction xs rule: reported.induct) simp_all

lemma load_parent_patch_log:
  "log (snd (load_parent_patch e d rv w)) =
     log w @ [Downloading (url (repository d) @ ''/raw-rev/'' @ rv)]"
  by (simp add: load_parent_patch_def requests_get_def logging_info_def logger_debug_def Let_def
        split: sum.splits prod.splits)

lemma load_hgmo_patch_log:
  "\<exists>new. log (snd (load_hgmo_patch e d w)) = log w @ new \<and> reported new = []"
  by (simp add: load_hgmo_patch_def requests_get_def logging_info_def logger_debug_def Let_def
        load_parent_patch_log split: sum.splits prod.splits)

subsection \<open>One diff\<close>

lemma process_diff_try_diffs: "diffs (snd (process_diff_try e d w)) = diffs w"
  using load_hgmo_patch_tables(2)[of e d w]
  by (auto simp: process_diff_try_def bulk_update_def logging_info_def logger_debug_def Let_def
        split: sum.splits prod.splits option.splits)

lemma process_diff_try_failed:
  assumes "fst (process_diff_try e d w) = Inl x"
  shows "issue_links (snd (process_diff_try e d w)) = issue_links w"
  using assms load_hgmo_patch_tables(1)[of e d w]
  by (auto simp: process_diff_try_def bulk_update_def logging_info_def logger_debug_def Let_def
        split: sum.splits prod.splits option.splits)

lemma process_diff_try_done:
  assumes "fst (process_diff_try e d w) = Inr u"
  shows "\<exists>lines. fst (load_hgmo_patch e d w) = Inr lines \<and>
           issue_links (snd (process_diff_try e d w)) =
             map (update_row (map (\<lambda>l. detect_in_patch l lines) (issue_links_all d w)))
                 (issue_links w)"
  using assms load_hgmo_patch_tables(1)[of e d w]
  by (auto simp: process_diff_try_def bulk_update_def logging_info_def logger_debug_def Let_def issue_links_all_def
        split: sum.splits prod.splits option.splits)

lemma process_diff_tables:
  "issue_links (process_diff e d w) = issue_links (snd (process_diff_try e d w))"
  "diffs (process_diff e d w) = diffs w"
  using process_diff_try_diffs[of e d w]
  by (auto simp: process_diff_def logging_info_def logger_debug_def split: sum.splits prod.splits)

lemma process_diff_failed:
  assumes "fst (process_diff_try e d w) = Inl x"
  shows "process_diff e d w = logging_info (Failure_on_diff (id_diff d) x) (snd (process_diff_try e d w))"
    and "issue_links (process_diff e d w) = issue_links w"
  using assms process_diff_try_failed[OF assms]
  by (auto simp: process_diff_def logging_info_def logger_debug_def split: prod.splits sum.splits)

lemma process_diff_log:
  "\<exists>new. log (process_diff e d w) = log w @ new \<and> set (reported new) = {id_diff d} \<and>
     (\<forall>x. fst (process_diff_try e d w) = Inl x \<longrightarrow> Failure_on_diff (id_diff d) x \<in> set new)"
proof -
  obtain new where n: "log (snd (load_hgmo_patch e d w)) = log w @ new" "reported new = []"
    using load_hgmo_patch_log by blast
  show ?thesis
    using n
    by (cases "load_hgmo_patch e d w")
       (auto simp: process_diff_def process_diff_try_def bulk_update_def logging_info_def logger_debug_def Let_def
          reported_append split: sum.splits prod.splits option.splits)
qed

lemma process_diff_rows:
  "issue_links (process_diff e d w) = issue_links w \<or>
   (\<exists>lines. \<not> isl (fst (process_diff_try e d w)) \<and> issue_links (process_diff e d w) =
      map (update_row (map (\<lambda>l. detect_in_patch l lines) (issue_links_all d w))) (issue_links w))"
proof (cases "fst (process_diff_try e d w)")
  case (Inl x)
  then show ?thesis by (simp add: process_diff_tables process_diff_try_failed)
next
  case (Inr u)
  then show ?thesis using process_diff_try_done[OF Inr] by (auto simp: process_diff_tables)
qed

subsection \<open>The batched write\<close>

lemma detect_in_patch_frame:
  "detect_in_patch l lines = l\<lparr>in_patch := in_patch (detect_in_patch l lines)\<rparr>"
  by (simp add: detect_in_patch_def split: option.splits)

lemma detect_in_patch_concrete: "in_patch (detect_in_patch l lines) \<noteq> None"
  by (auto simp: detect_in_patch_def split: option.splits)

lemma detect_in_patch_id [simp]: "id_link (detect_in_patch l lines) = id_link l"
  by (simp add: detect_in_patch_def split: option.splits)

lemma detected_concrete:
  "\<forall>obj\<in>set (map (\<lambda>l. detect_in_patch l lines) rows). in_patch obj \<noteq> None"
  using detect_in_patch_concrete by auto

lemma update_row_frame: "update_row objs r = r\<lparr>in_patch := in_patch (update_row objs r)\<rparr>"
  by (simp add: update_row_def split: option.splits)

lemma update_row_columns [simp]:
  "id_link (update_row objs r) = id_link r"
  "diff_id (update_row objs r) = diff_id r"
  by (simp_all add: update_row_def split: option.splits)

lemma update_row_concrete:
  assumes "\<forall>obj\<in>set objs. in_patch obj \<noteq> None"
  shows "update_row objs r = r \<or> in_patch (update_row objs r) \<noteq> None"
  using assms by (auto simp: update_row_def find_Some_iff split: option.splits)

lemma update_row_hit:
  assumes "\<forall>obj\<in>set objs. in_patch obj \<noteq> None" and "id_link r \<in> id_link ` set objs"
  shows "in_patch (update_row objs r) \<noteq> None"
proof -
  from assms(2) have "find (\<lambda>obj. id_link obj = id_link r) objs \<noteq> None"
    by (auto simp: find_None_iff)
  then obtain obj where "find (\<lambda>obj. id_link obj = id_link r) objs = Some obj" by blast
  moreover from this have "obj \<in> set objs"
    by (auto simp: find_Some_iff)
  ultimately show ?thesis using assms(1) by (simp add: update_row_def)
qed

lemma update_row_miss:
  assumes "id_link r \<notin> id_link ` set objs"
  shows "update_row objs r = r"
proof -
  from assms have "\<forall>obj\<in>set objs. id_link obj \<noteq> id_link r"
    by (metis imageI)
  then have "find (\<lambda>obj. id_link obj = id_link r) objs = None"
    by (simp add: find_None_iff)
  then show ?thesis by (simp add: update_row_def)
qed

lemma other_diff_miss:
  assumes "distinct (map id_link rows)" and "r \<in> set rows" and "diff_id r \<noteq> Some k"
  shows "id_link r \<notin> id_link ` set (map (\<lambda>l. detect_in_patch l lines)
                                        (filter (\<lambda>l. diff_id l = Some k) rows))"
proof
  assume "id_link r \<in> id_link ` set (map (\<lambda>l. detect_in_patch l lines)
                                        (filter (\<lambda>l. diff_id l = Some k) rows))"
  then obtain r0 where r0: "r0 \<in> set rows" "diff_id r0 = Some k" "id_link r0 = id_link r"
    by auto
  from assms(1) have "inj_on id_link (set rows)" by (simp add: distinct_map)
  with r0 assms(2) have "r0 = r" by (auto dest: inj_onD)
  with r0 assms(3) show False by simp
qed

lemma find_detected:
  "distinct (map id_link rows) \<Longrightarrow> r \<in> set rows \<Longrightarrow>
     find (\<lambda>obj. id_link obj = id_link r) (map (\<lambda>l. detect_in_patch l lines) rows) =
       Some (detect_in_patch r lines)"
proof (induction rows)
  case Nil
  then show ?case by simp
next
  case (Cons a rows)
  show ?case
  proof (cases "id_link a = id_link r")
    case True
    with Cons.prems have "a = r" by (auto simp: image_iff)
    then show ?thesis by simp
  next
    case False
    with Cons show ?thesis by auto
  qed
qed

lemma update_row_own:
  assumes "distinct (map id_link rows)" and "r \<in> set rows" and "diff_id r = Some k"
  shows "update_row (map (\<lambda>l. detect_in_patch l lines) (filter (\<lambda>l. diff_id l = Some k) rows)) r =
           detect_in_patch r lines"
proof -
  from assms(1) have "distinct (map id_link (filter (\<lambda>l. diff_id l = Some k) rows))"
    by (rule distinct_map_filter)
  moreover from assms(2,3) have "r \<in> set (filter (\<lambda>l. diff_id l = Some k) rows)" by simp
  ultimately have "find (\<lambda>obj. id_link obj = id_link r)
      (map (\<lambda>l. detect_in_patch l lines) (filter (\<lambda>l. diff_id l = Some k) rows)) =
       Some (detect_in_patch r lines)"
    by (rule find_detected)
  then show ?thesis
    using detect_in_patch_frame[of r lines] by (simp add: update_row_def)
qed

lemma process_diff_frame:
  assumes "distinct (map id_link (issue_links w))"
  shows "list_all2 (written_by (id_diff d)) (issue_links w) (issue_links (process_diff e d w))"
proof (cases "fst (process_diff_try e d w)")
  case (Inl x)
  then show ?thesis
    by (simp add: process_diff_tables process_diff_try_failed list_all2_same written_by_def)
next
  case (Inr u)
  then obtain lines where
    l: "issue_links (snd (process_diff_try e d w)) =
          map (update_row (map (\<lambda>l. detect_in_patch l lines) (issue_links_all d w))) (issue_links w)"
    using process_diff_try_done by blast
  have "\<forall>r\<in>set (issue_links w).
          written_by (id_diff d) r
            (update_row (map (\<lambda>l. detect_in_patch l lines) (issue_links_all d w)) r)"
  proof
    fix r assume r: "r \<in> set (issue_links w)"
    have "diff_id r \<noteq> Some (id_diff d) \<Longrightarrow>
            update_row (map (\<lambda>l. detect_in_patch l lines) (issue_links_all d w)) r = r"
      using other_diff_miss[OF assms r] unfolding issue_links_all_def
      by (rule update_row_miss)
    then show "written_by (id_diff d) r
            (update_row (map (\<lambda>l. detect_in_patch l lines) (issue_links_all d w)) r)"
      unfolding written_by_def using update_row_frame by blast
  qed
  then show ?thesis
    by (simp add: process_diff_tables l list_all2_map2 list_all2_same)
qed

lemma written_by_keys:
  "list_all2 (written_by k) rows rows' \<Longrightarrow> map id_link rows' = map id_link rows"
proof (induction rule: list_all2_induct)
  case Nil
  then show ?case by simp
next
  case (Cons r rows r' rows')
  from Cons.hyps(1) have "id_link r' = id_link (r\<lparr>in_patch := in_patch r'\<rparr>)"
    unfolding written_by_def by metis
  with Cons.IH show ?case by simp
qed

lemma written_by_other:
  "list_all2 (written_by k) rows rows' \<Longrightarrow> k' \<noteq> k \<Longrightarrow>
     filter (\<lambda>l. diff_id l = Some k') rows' = filter (\<lambda>l. diff_id l = Some k') rows"
proof (induction rule: list_all2_induct)
  case Nil
  then show ?case by simp
next
  case (Cons r rows r' rows')
  from Cons.hyps(1) have a: "diff_id r' = diff_id (r\<lparr>in_patch := in_patch r'\<rparr>)"
    and b: "diff_id r \<noteq> Some k \<Longrightarrow> r' = r"
    unfolding written_by_def by metis+
  from a have "diff_id r' = diff_id r" by simp
  with b Cons.prems Cons.IH show ?case by auto
qed

lemma process_diff_written:
  "list_all2 (\<lambda>r r'. r' = r \<or> in_patch r' \<noteq> None)
     (issue_links w) (issue_links (process_diff e d w))"
  using process_diff_rows[of e d w]
proof
  assume "issue_links (process_diff e d w) = issue_links w"
  then show ?thesis by (simp add: list_all2_same)
next
  assume "\<exists>lines. \<not> isl (fst (process_diff_try e d w)) \<and> issue_links (process_diff e d w) =
      map (update_row (map (\<lambda>l. detect_in_patch l lines) (issue_links_all d w))) (issue_links w)"
  then obtain lines where l: "issue_links (process_diff e d w) =
      map (update_row (map (\<lambda>l. detect_in_patch l lines) (issue_links_all d w))) (issue_links w)"
    by blast
  show ?thesis
    unfolding l list_all2_map2 list_all2_same
    using update_row_concrete[OF detected_concrete] by blast
qed

subsection \<open>The run\<close>

lemma pool_map_append: "pool_map e (xs @ ys) w = pool_map e ys (pool_map e xs w)"
  by (induction xs arbitrary: w) simp_all

lemma pool_map_diffs: "diffs (pool_map e ds w) = diffs w"
  by (induction ds arbitrary: w) (simp_all add: process_diff_tables)

lemma pool_map_log:
  "\<exists>new. log (pool_map e ds w) = log w @ new \<and> set (reported new) = id_diff ` set ds"
proof (induction ds arbitrary: w)
  case Nil
  then show ?case by simp
next
  case (Cons d ds)
  obtain n1 where n1: "log (process_diff e d w) = log w @ n1" "set (reported n1) = {id_diff d}"
    using process_diff_log by blast
  obtain n2 where n2: "log (pool_map e ds (process_diff e d w)) = log (process_diff e d w) @ n2"
    "set (reported n2) = id_diff ` set ds"
    using Cons.IH by blast
  have "log (pool_map e (d # ds) w) = log w @ (n1 @ n2)"
    using n1 n2 by simp
  moreover have "set (reported (n1 @ n2)) = id_diff ` set (d # ds)"
    using n1 n2 by (simp add: reported_append)
  ultimately show ?case by blast
qed

lemma pool_map_log_grows: "\<exists>new. log (pool_map e ds w) = log w @ new"
  using pool_map_log by blast

lemma pool_map_keys:
  "distinct (map id_link (issue_links w)) \<Longrightarrow>
     map id_link (issue_links (pool_map e ds w)) = map id_link (issue_links w)"
proof (induction ds arbitrary: w)
  case Nil
  then show ?case by simp
next
  case (Cons d ds)
  have k: "map id_link (issue_links (process_diff e d w)) = map id_link (issue_links w)"
    using process_diff_frame[OF Cons.prems] by (rule written_by_keys)
  with Cons.prems have "distinct (map id_link (issue_links (process_diff e d w)))" by simp
  from Cons.IH[OF this] k show ?case by simp
qed

lemma pool_map_other:
  "distinct (map id_link (issue_links w)) \<Longrightarrow> k \<notin> id_diff ` set ds \<Longrightarrow>
     filter (\<lambda>l. diff_id l = Some k) (issue_links (pool_map e ds w)) =
     filter (\<lambda>l. diff_id l = Some k) (issue_links w)"
proof (induction ds arbitrary: w)
  case Nil
  then show ?case by simp
next
  case (Cons d ds)
  have f: "list_all2 (written_by (id_diff d)) (issue_links w) (issue_links (process_diff e d w))"
    using process_diff_frame[OF Cons.prems(1)] .
  have "distinct (map id_link (issue_links (process_diff e d w)))"
    using written_by_keys[OF f] Cons.prems(1) by simp
  moreover from Cons.prems(2) have "k \<notin> id_diff ` set ds" and "k \<noteq> id_diff d" by auto
  ultimately show ?case
    using Cons.IH[of "process_diff e d w"] written_by_other[OF f] by simp
qed

lemma pool_map_written:
  "list_all2 (\<lambda>r r'. r' = r \<or> in_patch r' \<noteq> None)
     (issue_links w) (issue_links (pool_map e ds w))"
proof (induction ds arbitrary: w)
  case Nil
  then show ?case by (simp add: list_all2_same)
next
  case (Cons d ds)
  have "list_all2 (\<lambda>r r'. r' = r \<or> in_patch r' \<noteq> None)
          (issue_links w) (issue_links (pool_map e ds (process_diff e d w)))"
    using process_diff_written[of w e d] Cons.IH[of "process_diff e d w"]
    by (rule list_all2_trans[rotated]) blast
  then show ?case by simp
qed

lemma set_select_diffs:
  "set (select_diffs w) =
     {d \<in> set (diffs w).
        (\<exists>l\<in>set (issue_links w). diff_id l = Some (id_diff d) \<and> in_patch l = None) \<or>
        (\<forall>l\<in>set (issue_links w). diff_id l \<noteq> Some (id_diff d))}"
  by (auto simp: select_diffs_def Let_def filter_empty_conv)

lemma sorted_select_diffs: "sorted (map id_diff (select_diffs w))"
  by (simp add: select_diffs_def)

lemma distinct_select_diffs: "distinct (select_diffs w)"
  by (simp add: select_diffs_def)

lemma distinct_ids_select_diffs:
  assumes "distinct (map id_diff (diffs w))"
  shows "distinct (map id_diff (select_diffs w))"
proof -
  from assms have "inj_on id_diff (set (diffs w))" by (simp add: distinct_map)
  moreover have "set (select_diffs w) \<subseteq> set (diffs w)" by (auto simp: set_select_diffs)
  ultimately have "inj_on id_diff (set (select_diffs w))" by (rule inj_on_subset)
  with distinct_select_diffs show ?thesis by (simp add: distinct_map)
qed

lemma handle_log:
  "\<exists>new. log (handle e w) = log w @ new \<and> set (reported new) = id_diff ` set (select_diffs w)"
  using pool_map_log[of e "select_diffs w" w]
  by (simp add: handle_def Let_def logger_debug_def)

subsection \<open>The listing\<close>

lemma lower_true: "lower ''true'' = ''true''"
  by (simp add: lower_def lower_char_def)

section \<open>The classifier\<close>

text \<open>
  \<^bold>\<open>C1.\<close> The classifier decides by priority: a path that is not a key of the parsed patch gives
  false; else an unset line gives true; else the result is true exactly when the interval
  \<open>[line, line + nb_lines)\<close> meets the changed lines of the file. The three instances of the
  claim (patch \<open>{"a.c": {10,11,12,20}}\<close>; line 8 with 3 lines is true, line 13 with 5 lines is
  false, path \<open>b.c\<close> is false) follow from it below.
\<close>

theorem detect_in_patch_rules:
  "(path (issue l) \<notin> dom lines \<longrightarrow> in_patch (detect_in_patch l lines) = Some False) \<and>
   (path (issue l) \<in> dom lines \<longrightarrow> line (issue l) = None \<longrightarrow>
      in_patch (detect_in_patch l lines) = Some True) \<and>
   (\<forall>changed n. lines (path (issue l)) = Some changed \<longrightarrow> line (issue l) = Some n \<longrightarrow>
      in_patch (detect_in_patch l lines) =
        Some ({n..<n + nb_lines (issue l)} \<inter> set changed \<noteq> {}))"
  by (auto simp: detect_in_patch_def set_range_py split: option.splits)

theorem detect_in_patch_rules_witness:
  "in_patch (detect_in_patch (example_link 1 ''a.c'' (Some 8) 3 (Some 1) None)
              [''a.c'' \<mapsto> [10, 11, 12, 20]]) = Some True \<and>
   in_patch (detect_in_patch (example_link 1 ''a.c'' (Some 13) 5 (Some 1) None)
              [''a.c'' \<mapsto> [10, 11, 12, 20]]) = Some False \<and>
   in_patch (detect_in_patch (example_link 1 ''b.c'' (Some 10) 1 (Some 1) None)
              [''a.c'' \<mapsto> [10, 11, 12, 20]]) = Some False \<and>
   in_patch (detect_in_patch (example_link 1 ''a.c'' None 1 (Some 1) None)
              [''a.c'' \<mapsto> [10, 11, 12, 20]]) = Some True"
  using detect_in_patch_rules[of "example_link 1 ''a.c'' (Some 8) 3 (Some 1) None"
          "[''a.c'' \<mapsto> [10, 11, 12, 20]]"]
        detect_in_patch_rules[of "example_link 1 ''a.c'' (Some 13) 5 (Some 1) None"
          "[''a.c'' \<mapsto> [10, 11, 12, 20]]"]
        detect_in_patch_rules[of "example_link 1 ''b.c'' (Some 10) 1 (Some 1) None"
          "[''a.c'' \<mapsto> [10, 11, 12, 20]]"]
        detect_in_patch_rules[of "example_link 1 ''a.c'' None 1 (Some 1) None"
          "[''a.c'' \<mapsto> [10, 11, 12, 20]]"]
  by (simp add: example_link_def)

text \<open>
  \<^bold>\<open>C8.\<close> As amended: the classifier has one effect, the assignment of its boolean to
  \<open>in_patch\<close> of the link object it was given, whose reference it returns; every other
  attribute of that object, every other link object and the dictionary are as they were. The
  boolean is a function of the issue's path, line and number of lines and of the content of
  the dictionary: two calls that agree on these write the same boolean, whatever the stores
  and the other attributes of the links.
\<close>

theorem detect_in_patch_obj_effect:
  "fst (detect_in_patch_obj r p s) = r \<and>
   dict_objects (snd (detect_in_patch_obj r p s)) = dict_objects s \<and>
   (\<forall>r'. r' \<noteq> r \<longrightarrow> link_objects (snd (detect_in_patch_obj r p s)) r' = link_objects s r') \<and>
   link_objects (snd (detect_in_patch_obj r p s)) r =
     (link_objects s r)\<lparr>in_patch := in_patch (detect_in_patch (link_objects s r) (dict_objects s p))\<rparr> \<and>
   (\<forall>r' p' s'.
      path (issue (link_objects s' r')) = path (issue (link_objects s r)) \<longrightarrow>
      line (issue (link_objects s' r')) = line (issue (link_objects s r)) \<longrightarrow>
      nb_lines (issue (link_objects s' r')) = nb_lines (issue (link_objects s r)) \<longrightarrow>
      dict_objects s' p' = dict_objects s p \<longrightarrow>
      in_patch (link_objects (snd (detect_in_patch_obj r' p' s')) r') =
        in_patch (link_objects (snd (detect_in_patch_obj r p s)) r))"
  by (simp add: detect_in_patch_obj_def assign_in_patch_def detect_in_patch_def
        split: option.splits)

theorem detect_in_patch_obj_effect_witness:
  "link_objects (snd (detect_in_patch_obj 0 0 example_store)) 1 = link_objects example_store 1 \<and>
   in_patch (link_objects (snd (detect_in_patch_obj 1 0 example_store)) 1) =
     in_patch (link_objects (snd (detect_in_patch_obj 0 0 example_store)) 0)"
  using detect_in_patch_obj_effect[of 0 0 example_store]
  by (simp add: example_store_def example_link_def)

text \<open>
  \<^bold>\<open>C8\<close> as stated fails: the call modifies the object it is given. The link at reference 0
  has an unknown \<open>in_patch\<close> before the call and a true one after it.
\<close>

theorem detect_in_patch_obj_counterexample:
  "in_patch (link_objects example_store 0) = None \<and>
   in_patch (link_objects (snd (detect_in_patch_obj 0 0 example_store)) 0) = Some True"
  by (simp add: detect_in_patch_obj_def assign_in_patch_def example_store_def example_link_def
        range_py_def)

text \<open>
  \<^bold>\<open>C7.\<close> As amended: every path of the classifier assigns true or false, and after a run every
  row of the link table either is the row it was or carries true or false; no row is set back
  to unknown. The run may overwrite a concrete value of a link of a selected diff: see the
  counterexample that follows.
\<close>

theorem in_patch_written_concrete:
  "(\<forall>l lines. in_patch (detect_in_patch l lines) = Some True \<or>
               in_patch (detect_in_patch l lines) = Some False) \<and>
   list_all2 (\<lambda>r r'. r' = r \<or> in_patch r' = Some True \<or> in_patch r' = Some False)
     (issue_links w) (issue_links (handle e w))"
proof
  show "\<forall>l lines. in_patch (detect_in_patch l lines) = Some True \<or>
               in_patch (detect_in_patch l lines) = Some False"
    using detect_in_patch_concrete by (metis (full_types) option.exhaust)
next
  have "list_all2 (\<lambda>r r'. r' = r \<or> in_patch r' \<noteq> None)
     (issue_links w) (issue_links (handle e w))"
    using pool_map_written[of "logger_debug (Will_process (length (select_diffs w))) w" e "select_diffs w"]
    by (simp add: handle_def logging_info_def logger_debug_def Let_def)
  then show "list_all2 (\<lambda>r r'. r' = r \<or> in_patch r' = Some True \<or> in_patch r' = Some False)
     (issue_links w) (issue_links (handle e w))"
    by (rule list_all2_mono) auto
qed

theorem in_patch_written_concrete_witness:
  "list_all2 (\<lambda>r r'. r' = r \<or> in_patch r' = Some True \<or> in_patch r' = Some False)
     (issue_links example_world) (issue_links (handle example_env example_world))"
  using in_patch_written_concrete[of example_world example_env] by simp

text \<open>
  \<^bold>\<open>C7\<close> as stated fails: a link of diff 1 that was true before the run is false after it,
  a transition that does not start from unknown. Diff 1 is selected for its other link.
\<close>

theorem in_patch_overwritten_counterexample:
  "in_patch (issue_links example_world ! 1) = Some True \<and>
   in_patch (issue_links (handle example_env example_world) ! 1) = Some False"
  by (simp add: run_defs ex_defs)

section \<open>The fetcher\<close>

text \<open>
  \<^bold>\<open>C2.\<close> When the metadata of the diff's commit was fetched and its description begins with
  \<open>try_task_config\<close>, the second request is for the raw patch of the first parent; for any
  other description it is for the raw patch of the diff's own hash.
\<close>

theorem load_hgmo_patch_revision:
  assumes "http_get e (url (repository d) @ ''/json-rev/'' @ mercurial_hash d)
             [(''user-agent'', BACKEND_USER_AGENT e)] = Inr resp"
    and "raise_for_status resp = Inr ()"
    and "json resp = Inr m"
  shows "(prefix ''try_task_config'' (desc m) \<longrightarrow>
            (\<forall>p ps. parents m = p # ps \<longrightarrow>
               requests (snd (load_hgmo_patch e d w)) =
                 requests w @
                   [(url (repository d) @ ''/json-rev/'' @ mercurial_hash d,
                     [(''user-agent'', BACKEND_USER_AGENT e)]),
                    (url (repository d) @ ''/raw-rev/'' @ p,
                     [(''user-agent'', BACKEND_USER_AGENT e)])])) \<and>
         (\<not> prefix ''try_task_config'' (desc m) \<longrightarrow>
            requests (snd (load_hgmo_patch e d w)) =
              requests w @
                [(url (repository d) @ ''/json-rev/'' @ mercurial_hash d,
                  [(''user-agent'', BACKEND_USER_AGENT e)]),
                 (url (repository d) @ ''/raw-rev/'' @ mercurial_hash d,
                  [(''user-agent'', BACKEND_USER_AGENT e)])])"
  using assms
  by (simp add: load_hgmo_patch_def requests_get_def logging_info_def logger_debug_def Let_def patch_rev_def
        load_parent_patch_requests)

theorem load_hgmo_patch_revision_witness:
  "requests (snd (load_hgmo_patch example_env (example_diff 1 ''C1'') example_world)) =
     [(''https://hg.example/try/json-rev/C1'', [(''user-agent'', ''code-review-backend'')]),
      (''https://hg.example/try/raw-rev/P1'', [(''user-agent'', ''code-review-backend'')])] \<and>
   requests (snd (load_hgmo_patch example_env (example_diff 3 ''C2'') example_world)) =
     [(''https://hg.example/try/json-rev/C2'', [(''user-agent'', ''code-review-backend'')]),
      (''https://hg.example/try/raw-rev/C2'', [(''user-agent'', ''code-review-backend'')])]"
  using load_hgmo_patch_revision[of example_env "example_diff 1 ''C1''"
          "\<lparr>status_code = 200, text_resp = '''',
            json = Inr \<lparr>desc = ''try_task_config for bug X'', parents = [''P1'', ''P2'']\<rparr>\<rparr>"
          "\<lparr>desc = ''try_task_config for bug X'', parents = [''P1'', ''P2'']\<rparr>" example_world]
        load_hgmo_patch_revision[of example_env "example_diff 3 ''C2''"
          "\<lparr>status_code = 200, text_resp = '''',
            json = Inr \<lparr>desc = ''Bug 2 - fix b.c'', parents = [''P0'']\<rparr>\<rparr>"
          "\<lparr>desc = ''Bug 2 - fix b.c'', parents = [''P0'']\<rparr>" example_world]
  by (simp add: ex_defs raise_for_status_def)

text \<open>
  \<^bold>\<open>C4.\<close> A patch that parses to the empty map fails the diff with the assertion error
  \<open>Empty patch\<close>; the error is caught like any other: the link table is unchanged, the failure
  is logged with the diff's id after the two downloads, and the run goes on with the next
  diffs.
\<close>

theorem empty_patch_rejected:
  assumes "http_get e (url (repository d) @ ''/json-rev/'' @ mercurial_hash d)
             [(''user-agent'', BACKEND_USER_AGENT e)] = Inr resp"
    and "raise_for_status resp = Inr ()"
    and "json resp = Inr m"
    and "patch_rev m d = Inr rv"
    and "http_get e (url (repository d) @ ''/raw-rev/'' @ rv)
             [(''user-agent'', BACKEND_USER_AGENT e)] = Inr resp'"
    and "raise_for_status resp' = Inr ()"
    and "parse_patch e (text_resp resp') = Inr []"
  shows "fst (process_diff_try e d w) = Inl (AssertionError ''Empty patch'') \<and>
         issue_links (process_diff e d w) = issue_links w \<and>
         log (process_diff e d w) =
           log w @ [Downloading (url (repository d) @ ''/json-rev/'' @ mercurial_hash d),
                    Downloading (url (repository d) @ ''/raw-rev/'' @ rv),
                    Failure_on_diff (id_diff d) (AssertionError ''Empty patch'')] \<and>
         (\<forall>ds. pool_map e (d # ds) w = pool_map e ds (process_diff e d w))"
proof -
  have l: "load_hgmo_patch e d w =
     (Inl (AssertionError ''Empty patch''),
      w\<lparr>log := log w @ [Downloading (url (repository d) @ ''/json-rev/'' @ mercurial_hash d),
                    Downloading (url (repository d) @ ''/raw-rev/'' @ rv)],
        requests := requests w @
           [(url (repository d) @ ''/json-rev/'' @ mercurial_hash d, [(''user-agent'', BACKEND_USER_AGENT e)]),
            (url (repository d) @ ''/raw-rev/'' @ rv, [(''user-agent'', BACKEND_USER_AGENT e)])]\<rparr>)"
    using assms
    by (simp add: load_hgmo_patch_def load_parent_patch_def requests_get_def logging_info_def logger_debug_def Let_def)
  then have t: "fst (process_diff_try e d w) = Inl (AssertionError ''Empty patch'')"
    by (simp add: process_diff_try_def)
  moreover have "issue_links (process_diff e d w) = issue_links w"
    using t by (rule process_diff_failed(2))
  moreover have "log (process_diff e d w) =
           log w @ [Downloading (url (repository d) @ ''/json-rev/'' @ mercurial_hash d),
                    Downloading (url (repository d) @ ''/raw-rev/'' @ rv),
                    Failure_on_diff (id_diff d) (AssertionError ''Empty patch'')]"
    using l by (simp add: process_diff_def process_diff_try_def logging_info_def logger_debug_def)
  ultimately show ?thesis by simp
qed

theorem empty_patch_rejected_witness:
  "fst (process_diff_try example_env (example_diff 4 ''C4'') example_world) =
     Inl (AssertionError ''Empty patch'') \<and>
   issue_links (process_diff example_env (example_diff 4 ''C4'') example_world) =
     issue_links example_world \<and>
   log (process_diff example_env (example_diff 4 ''C4'') example_world) =
     [Downloading ''https://hg.example/try/json-rev/C4'',
      Downloading ''https://hg.example/try/raw-rev/C4'',
      Failure_on_diff 4 (AssertionError ''Empty patch'')]"
  using empty_patch_rejected[of example_env "example_diff 4 ''C4''"
          "\<lparr>status_code = 200, text_resp = '''',
            json = Inr \<lparr>desc = ''Bug 4 - nothing'', parents = [''P0'']\<rparr>\<rparr>"
          "\<lparr>desc = ''Bug 4 - nothing'', parents = [''P0'']\<rparr>" "''C4''"
          "\<lparr>status_code = 200, text_resp = '''', json = Inl JSONDecodeError\<rparr>" example_world]
  by (simp add: ex_defs raise_for_status_def patch_rev_def)

section \<open>One diff\<close>

text \<open>
  \<^bold>\<open>C10.\<close> When a diff is processed successfully and link ids are a primary key, each row of
  the link table that belongs to the diff becomes what the classifier returns for it, which
  is the row with a new \<open>in_patch\<close>; every other row, and the diff table, are unchanged.
\<close>

theorem bulk_update_frame:
  assumes "distinct (map id_link (issue_links w))"
    and "fst (process_diff_try e d w) = Inr ()"
  shows "(\<exists>lines. fst (load_hgmo_patch e d w) = Inr lines \<and>
            list_all2 (\<lambda>r r'. r' = (if diff_id r = Some (id_diff d) then detect_in_patch r lines else r))
              (issue_links w) (issue_links (process_diff e d w))) \<and>
         list_all2 (\<lambda>r r'. r' = r\<lparr>in_patch := in_patch r'\<rparr> \<and> (diff_id r \<noteq> Some (id_diff d) \<longrightarrow> r' = r))
           (issue_links w) (issue_links (process_diff e d w)) \<and>
         diffs (process_diff e d w) = diffs w"
proof (intro conjI)
  from process_diff_try_done[OF assms(2)] obtain lines where
    l: "fst (load_hgmo_patch e d w) = Inr lines"
       "issue_links (process_diff e d w) =
          map (update_row (map (\<lambda>l. detect_in_patch l lines) (issue_links_all d w))) (issue_links w)"
    by (auto simp: process_diff_tables)
  have "\<forall>r\<in>set (issue_links w).
          update_row (map (\<lambda>l. detect_in_patch l lines) (issue_links_all d w)) r =
            (if diff_id r = Some (id_diff d) then detect_in_patch r lines else r)"
    using update_row_own[OF assms(1)] update_row_miss[OF other_diff_miss[OF assms(1)]]
    unfolding issue_links_all_def by simp
  then have "list_all2 (\<lambda>r r'. r' = (if diff_id r = Some (id_diff d) then detect_in_patch r lines else r))
              (issue_links w) (issue_links (process_diff e d w))"
    unfolding l(2) list_all2_map2 list_all2_same by simp
  with l(1) show "\<exists>lines. fst (load_hgmo_patch e d w) = Inr lines \<and>
            list_all2 (\<lambda>r r'. r' = (if diff_id r = Some (id_diff d) then detect_in_patch r lines else r))
              (issue_links w) (issue_links (process_diff e d w))"
    by blast
next
  show "list_all2 (\<lambda>r r'. r' = r\<lparr>in_patch := in_patch r'\<rparr> \<and> (diff_id r \<noteq> Some (id_diff d) \<longrightarrow> r' = r))
           (issue_links w) (issue_links (process_diff e d w))"
    using process_diff_frame[OF assms(1), of d e] unfolding written_by_def .
next
  show "diffs (process_diff e d w) = diffs w" by (rule process_diff_tables)
qed

theorem bulk_update_frame_witness:
  "fst (process_diff_try example_env (example_diff 1 ''C1'') example_world) = Inr () \<and>
   list_all2 (\<lambda>r r'. r' = r\<lparr>in_patch := in_patch r'\<rparr> \<and>
                      (diff_id r \<noteq> Some (id_diff (example_diff 1 ''C1'')) \<longrightarrow> r' = r))
     (issue_links example_world)
     (issue_links (process_diff example_env (example_diff 1 ''C1'') example_world))"
proof -
  have k: "distinct (map id_link (issue_links example_world))"
    by (simp add: ex_defs)
  have f: "fst (process_diff_try example_env (example_diff 1 ''C1'') example_world) = Inr ()"
    by (simp add: run_defs ex_defs)
  show ?thesis
    using f bulk_update_frame[OF k f] by simp
qed

section \<open>The run\<close>

text \<open>
  \<^bold>\<open>C5.\<close> The claim: the selection is exactly the diffs with a link of unknown \<open>in_patch\<close>, and
  a diff without such a link is not selected and does no work. The query also selects a diff
  that has no link at all: diff 6 has none, is selected after diffs 1 and 3, and is fetched
  and reported on with 0 links in the patch.
\<close>

theorem select_diffs_linkless:
  "issue_links_all (example_diff 6 ''C2'') example_linkless = [] \<and>
   select_diffs example_linkless =
     [example_diff 1 ''C1'', example_diff 3 ''C2'', example_diff 6 ''C2''] \<and>
   Found_in_patch 0 6 \<in> set (log (handle example_env example_linkless))"
  by (simp add: run_defs ex_defs example_linkless_def example_backlog_def)

text \<open>
  \<^bold>\<open>C3.\<close> Let \<open>D\<close> be a selected diff whose \<open>try\<close> body raises \<open>x\<close> in the state its predecessors left
  (ids being primary keys). Then the run logs the failure with \<open>D\<close>'s id, the write of that
  step leaves the link table as it was, the links of \<open>D\<close> are after the run what they were
  before it, every selected diff is reported on in the new log records, and the run goes on
  with the diffs after \<open>D\<close>: \<open>handle\<close> returns a state, never an error.
\<close>

theorem failure_isolation:
  assumes "select_diffs w = before @ D # rest"
    and "fst (process_diff_try e D
                (pool_map e before (logger_debug (Will_process (length (select_diffs w))) w))) = Inl x"
    and "distinct (map id_link (issue_links w))"
    and "distinct (map id_diff (diffs w))"
  shows "(\<exists>new. log (handle e w) = log w @ new \<and> Failure_on_diff (id_diff D) x \<in> set new \<and>
            set (reported new) = id_diff ` set (select_diffs w)) \<and>
         issue_links (process_diff e D
             (pool_map e before (logger_debug (Will_process (length (select_diffs w))) w))) =
           issue_links (pool_map e before (logger_debug (Will_process (length (select_diffs w))) w)) \<and>
         issue_links_all D (handle e w) = issue_links_all D w \<and>
         handle e w =
           pool_map e rest (process_diff e D
             (pool_map e before (logger_debug (Will_process (length (select_diffs w))) w)))"
proof -
  let ?w1 = "logger_debug (Will_process (length (select_diffs w))) w"
  let ?w2 = "pool_map e before ?w1"
  let ?w3 = "process_diff e D ?w2"
  have h: "handle e w = pool_map e rest ?w3"
    using assms(1) by (simp add: handle_def Let_def pool_map_append)
  have unchanged: "issue_links ?w3 = issue_links ?w2"
    using assms(2) by (rule process_diff_failed(2))
  obtain new where new: "log (handle e w) = log w @ new"
    "set (reported new) = id_diff ` set (select_diffs w)"
    using handle_log by blast
  obtain n1 where n1: "log ?w2 = log ?w1 @ n1" using pool_map_log_grows by blast
  obtain n2 where n2: "log ?w3 = log ?w2 @ n2" "Failure_on_diff (id_diff D) x \<in> set n2"
    using process_diff_log[of e D ?w2] assms(2) by blast
  obtain n3 where n3: "log (pool_map e rest ?w3) = log ?w3 @ n3" using pool_map_log_grows by blast
  have "log (handle e w) = log w @ (n1 @ n2 @ n3)"
    unfolding h n3 n2(1) n1 by (simp add: logger_debug_def)
  with new(1) have "new = n1 @ n2 @ n3" by simp
  with n2(2) have "Failure_on_diff (id_diff D) x \<in> set new" by simp
  with new have log: "\<exists>new. log (handle e w) = log w @ new \<and> Failure_on_diff (id_diff D) x \<in> set new \<and>
            set (reported new) = id_diff ` set (select_diffs w)" by blast
  have "distinct (map id_diff (select_diffs w))"
    using assms(4) by (rule distinct_ids_select_diffs)
  then have out: "id_diff D \<notin> id_diff ` set before" "id_diff D \<notin> id_diff ` set rest"
    unfolding assms(1) by auto
  have k1: "distinct (map id_link (issue_links ?w1))"
    using assms(3) by (simp add: logging_info_def logger_debug_def)
  have k2: "distinct (map id_link (issue_links ?w2))"
    using pool_map_keys[OF k1, of e before] k1 by simp
  have k3: "distinct (map id_link (issue_links ?w3))"
    using k2 unchanged by simp
  have "issue_links_all D (handle e w) = filter (\<lambda>l. diff_id l = Some (id_diff D)) (issue_links ?w3)"
    unfolding h issue_links_all_def using pool_map_other[OF k3 out(2)] .
  also have "\<dots> = filter (\<lambda>l. diff_id l = Some (id_diff D)) (issue_links ?w1)"
    unfolding unchanged using pool_map_other[OF k1 out(1)] .
  also have "\<dots> = issue_links_all D w"
    by (simp add: issue_links_all_def logging_info_def logger_debug_def)
  finally have rows: "issue_links_all D (handle e w) = issue_links_all D w" .
  from log unchanged rows h show ?thesis by blast
qed

theorem failure_isolation_witness:
  "select_diffs example_world =
     [example_diff 1 ''C1''] @ example_diff 2 ''C3'' # [example_diff 3 ''C2'', example_diff 4 ''C4''] \<and>
   fst (process_diff_try example_env (example_diff 2 ''C3'')
         (pool_map example_env [example_diff 1 ''C1'']
            (logger_debug (Will_process (length (select_diffs example_world))) example_world))) =
     Inl (HTTPError 404) \<and>
   (\<exists>new. log (handle example_env example_world) = log example_world @ new \<and>
      Failure_on_diff (id_diff (example_diff 2 ''C3'')) (HTTPError 404) \<in> set new \<and>
      set (reported new) = id_diff ` set (select_diffs example_world)) \<and>
   issue_links_all (example_diff 2 ''C3'') (handle example_env example_world) =
     issue_links_all (example_diff 2 ''C3'') example_world"
proof -
  have s: "select_diffs example_world =
     [example_diff 1 ''C1''] @ example_diff 2 ''C3'' # [example_diff 3 ''C2'', example_diff 4 ''C4'']"
    by (simp add: select_diffs_def ex_defs)
  have f: "fst (process_diff_try example_env (example_diff 2 ''C3'')
         (pool_map example_env [example_diff 1 ''C1'']
            (logger_debug (Will_process (length (select_diffs example_world))) example_world))) =
     Inl (HTTPError 404)"
    by (simp add: run_defs ex_defs)
  have k: "distinct (map id_link (issue_links example_world))"
    by (simp add: ex_defs)
  have i: "distinct (map id_diff (diffs example_world))"
    by (simp add: ex_defs)
  show ?thesis
    using s f failure_isolation[OF s f k i] by blast
qed

text \<open>
  \<^bold>\<open>C6.\<close> The claim: after a run that classifies every selected diff, a second run selects
  no diff, does no work and leaves every \<open>in_patch\<close> as it was. Here the first run classifies
  all it selected, yet the second run selects diff 6, which has no link, and sends the two
  requests for it again; the links are the same after both runs.
\<close>

theorem handle_twice_linkless:
  "all_classified example_env (select_diffs example_linkless)
     (logger_debug (Will_process (length (select_diffs example_linkless))) example_linkless) \<and>
   select_diffs (handle example_env example_linkless) = [example_diff 6 ''C2''] \<and>
   requests (handle example_env (handle example_env example_linkless)) =
     requests (handle example_env example_linkless) @
       [(''https://hg.example/try/json-rev/C2'', [(''user-agent'', ''code-review-backend'')]),
        (''https://hg.example/try/raw-rev/C2'', [(''user-agent'', ''code-review-backend'')])] \<and>
   issue_links (handle example_env (handle example_env example_linkless)) =
     issue_links (handle example_env example_linkless)"
  by (simp add: run_defs ex_defs example_linkless_def example_backlog_def)

section \<open>Publishable issues\<close>

text \<open>
  \<^bold>\<open>C9.\<close> The publishable count of a diff is the number of its issues that are in the patch or
  of level error, and the listing of a check, when the \<open>publishable\<close> parameter is absent, keeps
  exactly the issues of the repository, analyzer and check that satisfy the same predicate.
\<close>

theorem publishable_predicate:
  "nb_issues_publishable (annotate_diff LEVEL_ERROR issues) =
     length (filter (publishable_spec LEVEL_ERROR) issues) \<and>
   (\<forall>rs. issue_check_details LEVEL_ERROR strptime issues repo an chk None None = Inr rs \<longrightarrow>
      set rs = {i \<in> set issues. repo \<in> set (head_repository_slugs i) \<and> analyzer i = an \<and>
                  analyzer_check i = chk \<and> publishable_spec LEVEL_ERROR i}) \<and>
   (\<forall>since rs. issue_check_details LEVEL_ERROR strptime issues repo an chk None since = Inr rs \<longrightarrow>
      (\<forall>i\<in>set rs. publishable_spec LEVEL_ERROR i))"
proof (intro conjI allI impI)
  show "nb_issues_publishable (annotate_diff LEVEL_ERROR issues) =
     length (filter (publishable_spec LEVEL_ERROR) issues)"
    by (simp add: annotate_diff_def publishable_spec_def[abs_def])
next
  fix rs
  assume "issue_check_details LEVEL_ERROR strptime issues repo an chk None None = Inr rs"
  then have "rs = remdups (filter (publishable_spec LEVEL_ERROR)
       (sort_key (\<lambda>i. - created i)
              (filter (\<lambda>i. analyzer_check i = chk)
                (filter (\<lambda>i. analyzer i = an)
                  (concat (map (\<lambda>i. map (\<lambda>_. i) (filter (\<lambda>slug. slug = repo) (head_repository_slugs i)))
                               issues))))))"
    by (simp add: issue_check_details_def lower_true publishable_spec_def[abs_def])
  then show "set rs = {i \<in> set issues. repo \<in> set (head_repository_slugs i) \<and> analyzer i = an \<and>
                  analyzer_check i = chk \<and> publishable_spec LEVEL_ERROR i}"
    by auto
next
  fix since rs
  assume "issue_check_details LEVEL_ERROR strptime issues repo an chk None since = Inr rs"
  then show "\<forall>i\<in>set rs. publishable_spec LEVEL_ERROR i"
    by (auto simp: issue_check_details_def lower_true publishable_spec_def Let_def split: option.splits)
qed

theorem publishable_predicate_witness:
  "issue_check_details ''error'' (\<lambda>_. None) example_issues ''try'' ''clang-tidy'' ''modernize''
     None None = Inr [example_issues ! 0, example_issues ! 1] \<and>
   set [example_issues ! 0, example_issues ! 1] =
     {i \<in> set example_issues. ''try'' \<in> set (head_repository_slugs i) \<and>
        analyzer i = ''clang-tidy'' \<and> analyzer_check i = ''modernize'' \<and> publishable_spec ''error'' i} \<and>
   nb_issues_publishable (annotate_diff ''error'' example_issues) = 2"
proof -
  have h: "issue_check_details ''error'' (\<lambda>_. None) example_issues ''try'' ''clang-tidy'' ''modernize''
     None None = Inr [example_issues ! 0, example_issues ! 1]"
    by (simp add: issue_check_details_def example_issues_def example_link_def lower_def lower_char_def)
  have n: "length (filter (publishable_spec ''error'') example_issues) = 2"
    by (simp add: example_issues_def example_link_def publishable_spec_def)
  note p = publishable_predicate[of "''error''" example_issues "\<lambda>_. None" "''try''"
        "''clang-tidy''" "''modernize''"]
  from p h have s: "set [example_issues ! 0, example_issues ! 1] =
     {i \<in> set example_issues. ''try'' \<in> set (head_repository_slugs i) \<and>
        analyzer i = ''clang-tidy'' \<and> analyzer_check i = ''modernize'' \<and> publishable_spec ''error'' i}"
    by blast
  from p have "nb_issues_publishable (annotate_diff ''error'' example_issues) =
     length (filter (publishable_spec ''error'') example_issues)"
    by (rule conjunct1)
  with n have c: "nb_issues_publishable (annotate_diff ''error'' example_issues) = 2"
    by (simp only:)
  from h s c show ?thesis by blast
qed

end
